theory Spec2Isabelle
  imports Main "HOL-Library.AList"
begin

section \<open>The AdGuard DNS tools: data model\<close>

text \<open>
  A shallow embedding of \<^verbatim>\<open>src/mastra/tools/adguard-tools.ts\<close>. The module-level
  constants read from the environment are a record \<open>config\<close>; the module-level variable
  \<open>currentAccessToken\<close> and everything outside the process (the HTTP provider) are the
  explicit state that every asynchronous function takes and returns. A thrown
  \<open>Error\<close> is the left summand of the result.
\<close>

definition ADGUARD_API_BASE :: string where
  "ADGUARD_API_BASE = ''https://api.adguard-dns.io''"

text \<open>\<open>process.env.X\<close> is a string or \<open>undefined\<close>.\<close>

record config =
  ADGUARD_DNS_SERVER_ID :: "string option"
  ADGUARD_REFRESH_TOKEN :: "string option"

text \<open>JavaScript's \<open>!v\<close> on a value that is a string or \<open>undefined\<close>.\<close>

definition falsy :: "string option \<Rightarrow> bool" where
  "falsy v = (case v of None \<Rightarrow> True | Some s \<Rightarrow> s = [])"

text \<open>What a template literal prints for a string or \<open>undefined\<close>.\<close>

definition interpolate :: "string option \<Rightarrow> string" where
  "interpolate v = (case v of None \<Rightarrow> ''undefined'' | Some s \<Rightarrow> s)"

subsection \<open>The interfaces of the module\<close>

record filtering_info =
  filtering_status :: "string option"
  filter_rule :: "string option"
  filter_id :: "string option"

record QueryLogItem =
  domain :: string
  time_iso :: string
  time_millis :: int
  filtering_info :: "filtering_info option"
  device_id :: "string option"
  dns_request_type :: "string option"

record pages =
  current :: nat
  total :: nat

record QueryLogResponse =
  items :: "QueryLogItem list"
  pages :: pages

record user_rules_settings =
  enabled :: bool
  rules :: "string list"
  rules_count :: nat

record DNSServerSettings =
  user_rules_settings :: user_rules_settings

record dns_server =
  settings :: DNSServerSettings

record TokenResponse =
  access_token :: string
  refresh_token :: "string option"

subsection \<open>Requests, responses and the provider\<close>

text \<open>
  The argument of \<open>JSON.stringify\<close> in the two places that send a body: the refresh
  exchange sends \<open>{refresh_token}\<close>, the settings update sends
  \<open>{user_rules_settings: {enabled, rules}}\<close>.
\<close>

datatype request_body =
    RefreshTokenBody string
  | UserRulesBody bool "string list"

text \<open>
  \<open>RequestInit\<close> as the module uses it; the field \<open>http_method\<close> is its property
  \<open>method\<close>. A headers object is an association list in insertion order; the empty list
  stands for an absent \<open>headers\<close> property, whose spread contributes nothing.
\<close>

record RequestInit =
  http_method :: "string option"
  headers :: "(string \<times> string) list"
  body :: "request_body option"

definition no_options :: RequestInit where
  "no_options = \<lparr>http_method = None, headers = [], body = None\<rparr>"

text \<open>
  The result of \<open>response.json()\<close>: \<open>None\<close> when the promise rejects, otherwise the
  decoded value. The source casts it with \<open>as\<close> to the interface it expects; a value of
  another shape is outside what the cast admits and is an error of the model.
\<close>

datatype json_value =
    TokenJson TokenResponse
  | QueryLogJson QueryLogResponse
  | DnsServerJson dns_server

record response =
  status :: nat
  statusText :: string
  json :: "json_value option"

text \<open>\<open>response.ok\<close> of the Fetch API: the status is in the range 200 to 299.\<close>

definition ok :: "response \<Rightarrow> bool" where
  "ok r = (200 \<le> status r \<and> status r \<le> 299)"

text \<open>A call of \<open>fetch\<close> resolves with a response or rejects (a network failure).\<close>

datatype fetch_outcome =
    Rejected string
  | Resolved response

text \<open>
  The provider is a parameter: a function from its own state, the URL and the request to
  the outcome and its next state.
\<close>

type_synonym 'w network = "'w \<Rightarrow> string \<Rightarrow> RequestInit \<Rightarrow> fetch_outcome \<times> 'w"

text \<open>
  The state threaded through the module: the in-memory token, the provider's state and
  the requests issued so far, oldest first.
\<close>

record 'w state =
  currentAccessToken :: string
  world :: 'w
  trace :: "(string \<times> RequestInit) list"

subsection \<open>Errors\<close>

datatype error =
    RefreshTokenNotSet
  | RefreshFailed nat string
  | ApiTokenNotSet
  | AdGuardApiError nat string
  | ServerIdNotSet
  | GetServerFailed nat string
  | UpdateSettingsFailed nat string
  | FetchRejected string
  | JsonRejected
  | UnexpectedJson

subsection \<open>Rendering numbers and joining strings\<close>

text \<open>The decimal digit of a number below ten; it is applied to such numbers only.\<close>

definition digit :: "nat \<Rightarrow> char" where
  "digit d = ''0123456789'' ! d"

fun show_nat :: "nat \<Rightarrow> string" where
  "show_nat n = (if n < 10 then [digit n] else show_nat (n div 10) @ [digit (n mod 10)])"

declare show_nat.simps [simp del]

definition show_int :: "int \<Rightarrow> string" where
  "show_int i = (if i < 0 then CHR ''-'' # show_nat (nat (- i)) else show_nat (nat i))"

text \<open>\<open>Array.prototype.join\<close> on strings.\<close>

fun join :: "string \<Rightarrow> string list \<Rightarrow> string" where
  "join sep [] = []"
| "join sep [x] = x"
| "join sep (x # y # ys) = x @ sep @ join sep (y # ys)"

text \<open>The message of each \<open>Error\<close> the module throws.\<close>

fun error_message :: "error \<Rightarrow> string" where
  "error_message RefreshTokenNotSet =
     ''ADGUARD_REFRESH_TOKEN environment variable is not set. Cannot refresh token.''"
| "error_message (RefreshFailed st txt) =
     ''Failed to refresh token: '' @ show_nat st @ '' '' @ txt"
| "error_message ApiTokenNotSet = ''ADGUARD_API_TOKEN environment variable is not set''"
| "error_message (AdGuardApiError st txt) =
     ''AdGuard API error: '' @ show_nat st @ '' '' @ txt"
| "error_message ServerIdNotSet = ''ADGUARD_DNS_SERVER_ID environment variable is not set''"
| "error_message (GetServerFailed st txt) =
     ''Failed to get DNS server: '' @ show_nat st @ '' '' @ txt"
| "error_message (UpdateSettingsFailed st txt) =
     ''Failed to update settings: '' @ show_nat st @ '' '' @ txt"
| "error_message (FetchRejected m) = m"
| "error_message JsonRejected = ''response.json() rejected''"
| "error_message UnexpectedJson = ''response body is not of the asserted interface''"

section \<open>The authenticated transport\<close>

text \<open>One call of \<open>fetch\<close>: the request is recorded and the provider answers.\<close>

definition fetch ::
  "'w network \<Rightarrow> string \<Rightarrow> RequestInit \<Rightarrow> 'w state \<Rightarrow> (error + response) \<times> 'w state" where
  "fetch net u init s =
     (case net (world s) u init of
        (outcome, w') \<Rightarrow>
          (case outcome of
             Rejected m \<Rightarrow> Inl (FetchRejected m)
           | Resolved r \<Rightarrow> Inr r,
           s\<lparr>world := w', trace := trace s @ [(u, init)]\<rparr>))"

definition refresh_request :: "string \<Rightarrow> RequestInit" where
  "refresh_request rt =
     \<lparr>http_method = Some ''POST'',
      headers = [(''Content-Type'', ''application/json'')],
      body = Some (RefreshTokenBody rt)\<rparr>"

definition oauth_url :: string where
  "oauth_url = ADGUARD_API_BASE @ ''/oapi/v1/oauth_token''"

text \<open>\<open>refreshAccessToken\<close>, lines 49 to 76.\<close>

definition refreshAccessToken ::
  "'w network \<Rightarrow> config \<Rightarrow> 'w state \<Rightarrow> (error + string) \<times> 'w state" where
  "refreshAccessToken net cfg s =
     (if falsy (ADGUARD_REFRESH_TOKEN cfg) then (Inl RefreshTokenNotSet, s)
      else
        (case fetch net oauth_url (refresh_request (interpolate (ADGUARD_REFRESH_TOKEN cfg))) s of
           (Inl e, s1) \<Rightarrow> (Inl e, s1)
         | (Inr resp, s1) \<Rightarrow>
             if \<not> ok resp then (Inl (RefreshFailed (status resp) (statusText resp)), s1)
             else
               (case json resp of
                  None \<Rightarrow> (Inl JsonRejected, s1)
                | Some (TokenJson data) \<Rightarrow>
                    (Inr (access_token data), s1\<lparr>currentAccessToken := access_token data\<rparr>)
                | Some _ \<Rightarrow> (Inl UnexpectedJson, s1))))"

text \<open>
  Object spread \<open>{...target, ...source}\<close>: each property of the source, in its order,
  overwrites the value of an existing key in place or is added at the end.
\<close>

definition spread :: "(string \<times> string) list \<Rightarrow> (string \<times> string) list \<Rightarrow> (string \<times> string) list" where
  "spread target source = fold (\<lambda>(k, v). AList.update k v) source target"

definition bearer :: "string \<Rightarrow> string" where
  "bearer tok = ''Bearer '' @ tok"

text \<open>The object literal of lines 90 to 97.\<close>

definition requestOptions :: "RequestInit \<Rightarrow> string \<Rightarrow> RequestInit" where
  "requestOptions options tok =
     options\<lparr>headers :=
       AList.update ''Authorization'' (bearer tok)
         (spread [(''Content-Type'', ''application/json'')] (headers options))\<rparr>"

text \<open>The reassignment of lines 109 to 112.\<close>

definition retryOptions :: "RequestInit \<Rightarrow> string \<Rightarrow> RequestInit" where
  "retryOptions ro newToken =
     ro\<lparr>headers := AList.update ''Authorization'' (bearer newToken) (headers ro)\<rparr>"

text \<open>\<open>callAdGuardAPI\<close>, lines 81 to 118.\<close>

definition callAdGuardAPI ::
  "'w network \<Rightarrow> config \<Rightarrow> string \<Rightarrow> RequestInit \<Rightarrow> 'w state \<Rightarrow> (error + response) \<times> 'w state" where
  "callAdGuardAPI net cfg u options s =
     (if currentAccessToken s = [] then (Inl ApiTokenNotSet, s)
      else
        (let ro = requestOptions options (currentAccessToken s) in
         case fetch net u ro s of
           (Inl e, s1) \<Rightarrow> (Inl e, s1)
         | (Inr resp, s1) \<Rightarrow>
             if status resp = 401 then
               (case refreshAccessToken net cfg s1 of
                  (Inl e, s2) \<Rightarrow> (Inl e, s2)
                | (Inr newToken, s2) \<Rightarrow> fetch net u (retryOptions ro newToken) s2)
             else (Inr resp, s1)))"

section \<open>The query log tool\<close>

text \<open>
  The elements of \<open>blocked_domains\<close>. The fields are those of the output schema; two of
  them carry a suffix because the input interfaces already use the names.
\<close>

record blocked_domain =
  domain_out :: string
  blocked_at :: string
  filter_rule_out :: "string option"
  filter_id_out :: "string option"

record query_log_result =
  blocked_domains :: "blocked_domain list"
  total_queries :: nat

text \<open>\<open>item.filtering_info?.f\<close>: \<open>undefined\<close> when \<open>filtering_info\<close> is absent.\<close>

definition opt_chain :: "(filtering_info \<Rightarrow> string option) \<Rightarrow> QueryLogItem \<Rightarrow> string option" where
  "opt_chain f item = (case filtering_info item of None \<Rightarrow> None | Some fi \<Rightarrow> f fi)"

text \<open>The predicate of the \<open>filter\<close> call, lines 152 to 155.\<close>

definition is_blocked :: "QueryLogItem \<Rightarrow> bool" where
  "is_blocked item =
     (opt_chain filtering_status item = Some ''REQUEST_BLOCKED'' \<or>
      opt_chain filtering_status item = Some ''RESPONSE_BLOCKED'')"

text \<open>The function of the \<open>map\<close> call, lines 156 to 161.\<close>

definition summarise :: "QueryLogItem \<Rightarrow> blocked_domain" where
  "summarise item =
     \<lparr>domain_out = domain item,
      blocked_at = time_iso item,
      filter_rule_out = opt_chain filter_rule item,
      filter_id_out = opt_chain filter_id item\<rparr>"

definition query_log_url :: "int \<Rightarrow> int \<Rightarrow> string" where
  "query_log_url timeFromMillis timeToMillis =
     ADGUARD_API_BASE @ ''/oapi/v1/query_log?time_from_millis='' @ show_int timeFromMillis
       @ ''&time_to_millis='' @ show_int timeToMillis @ ''&limit=200''"

text \<open>
  \<open>getQueryLogTool.execute\<close>, lines 135 to 167. \<open>now\<close> is the value of \<open>Date.now()\<close>;
  \<open>minutes\<close> is taken to be an integer.
\<close>

definition getQueryLogTool ::
  "'w network \<Rightarrow> config \<Rightarrow> int \<Rightarrow> int \<Rightarrow> 'w state \<Rightarrow> (error + query_log_result) \<times> 'w state" where
  "getQueryLogTool net cfg now minutes s =
     (let timeFromMillis = now - minutes * 60 * 1000;
          timeToMillis = now
      in case callAdGuardAPI net cfg (query_log_url timeFromMillis timeToMillis) no_options s of
           (Inl e, s1) \<Rightarrow> (Inl e, s1)
         | (Inr resp, s1) \<Rightarrow>
             if \<not> ok resp then (Inl (AdGuardApiError (status resp) (statusText resp)), s1)
             else
               (case json resp of
                  None \<Rightarrow> (Inl JsonRejected, s1)
                | Some (QueryLogJson data) \<Rightarrow>
                    (Inr \<lparr>blocked_domains = map summarise (filter is_blocked (items data)),
                          total_queries = length (items data)\<rparr>, s1)
                | Some _ \<Rightarrow> (Inl UnexpectedJson, s1)))"

section \<open>The unblock tool\<close>

record unblock_result =
  success :: bool
  message :: string
  rules_added :: "string list"
  already_whitelisted :: "string list"

text \<open>The template literal of line 203.\<close>

definition whitelistRule :: "string \<Rightarrow> string" where
  "whitelistRule d = ''@@||'' @ d @ ''^''"

text \<open>
  The loop of lines 202 to 210 over the pair of arrays \<open>(newRules, alreadyWhitelisted)\<close>;
  \<open>push\<close> appends at the end.
\<close>

fun unblock_loop :: "string list \<Rightarrow> string list \<Rightarrow> string list \<times> string list \<Rightarrow> string list \<times> string list" where
  "unblock_loop rs [] (newRules, alreadyWhitelisted) = (newRules, alreadyWhitelisted)"
| "unblock_loop rs (d # ds) (newRules, alreadyWhitelisted) =
     (if whitelistRule d \<in> set rs
      then unblock_loop rs ds (newRules, alreadyWhitelisted @ [d])
      else unblock_loop rs ds (newRules @ [whitelistRule d], alreadyWhitelisted))"

definition get_url :: "config \<Rightarrow> string" where
  "get_url cfg = ADGUARD_API_BASE @ ''/oapi/v1/dns_servers/'' @ interpolate (ADGUARD_DNS_SERVER_ID cfg)"

definition put_url :: "config \<Rightarrow> string" where
  "put_url cfg =
     ADGUARD_API_BASE @ ''/oapi/v1/dns_servers/'' @ interpolate (ADGUARD_DNS_SERVER_ID cfg)
       @ ''/settings''"

text \<open>
  The first half of \<open>unblockDomainTool.execute\<close>, lines 183 to 196: the read of the
  current configuration.
\<close>

definition read_dns_server ::
  "'w network \<Rightarrow> config \<Rightarrow> 'w state \<Rightarrow> (error + dns_server) \<times> 'w state" where
  "read_dns_server net cfg s =
     (if falsy (ADGUARD_DNS_SERVER_ID cfg) then (Inl ServerIdNotSet, s)
      else
        (case callAdGuardAPI net cfg (get_url cfg) no_options s of
           (Inl e, s1) \<Rightarrow> (Inl e, s1)
         | (Inr getResponse, s1) \<Rightarrow>
             if \<not> ok getResponse
             then (Inl (GetServerFailed (status getResponse) (statusText getResponse)), s1)
             else
               (case json getResponse of
                  None \<Rightarrow> (Inl JsonRejected, s1)
                | Some (DnsServerJson dnsServer) \<Rightarrow> (Inr dnsServer, s1)
                | Some _ \<Rightarrow> (Inl UnexpectedJson, s1))))"

definition put_options :: "bool \<Rightarrow> string list \<Rightarrow> RequestInit" where
  "put_options en updatedRules =
     \<lparr>http_method = Some ''PUT'', headers = [], body = Some (UserRulesBody en updatedRules)\<rparr>"

text \<open>\<open>unblockDomainTool.execute\<close>, lines 182 to 249.\<close>

definition unblockDomainTool ::
  "'w network \<Rightarrow> config \<Rightarrow> string list \<Rightarrow> 'w state \<Rightarrow> (error + unblock_result) \<times> 'w state" where
  "unblockDomainTool net cfg domains s =
     (case read_dns_server net cfg s of
        (Inl e, s1) \<Rightarrow> (Inl e, s1)
      | (Inr dnsServer, s1) \<Rightarrow>
          (let currentSettings = settings dnsServer;
               (newRules, alreadyWhitelisted) =
                 unblock_loop (rules (user_rules_settings currentSettings)) domains ([], [])
           in if length newRules = 0
              then (Inr \<lparr>success = True,
                         message = ''All '' @ show_nat (length domains)
                                     @ '' domain(s) are already whitelisted'',
                         rules_added = [],
                         already_whitelisted = alreadyWhitelisted\<rparr>, s1)
              else
                (let updatedRules = rules (user_rules_settings currentSettings) @ newRules in
                 case callAdGuardAPI net cfg (put_url cfg)
                        (put_options (enabled (user_rules_settings currentSettings)) updatedRules) s1 of
                   (Inl e, s2) \<Rightarrow> (Inl e, s2)
                 | (Inr putResponse, s2) \<Rightarrow>
                     if \<not> ok putResponse
                     then (Inl (UpdateSettingsFailed (status putResponse) (statusText putResponse)), s2)
                     else
                       (let newDomains = filter (\<lambda>d. d \<notin> set alreadyWhitelisted) domains
                        in (Inr \<lparr>success = True,
                                 message = ''Successfully added '' @ show_nat (length newRules)
                                             @ '' whitelist rule(s) for: '' @ join '', '' newDomains,
                                 rules_added = newRules,
                                 already_whitelisted = alreadyWhitelisted\<rparr>, s2)))))"

section \<open>A reference provider\<close>

text \<open>
  A small stateful provider with the four endpoints the module calls, used to run the
  tools on concrete inputs: it holds the user rules, a page of the query log, the access
  token it accepts, the refresh token it accepts and the access token the next refresh
  issues. A settings update replaces the stored rules; a request with another bearer
  token is answered 401.
\<close>

record provider =
  p_rules :: user_rules_settings
  p_log :: "QueryLogItem list"
  p_valid :: string
  p_refresh :: string
  p_next :: string

definition plain :: "nat \<Rightarrow> string \<Rightarrow> response" where
  "plain st txt = \<lparr>status = st, statusText = txt, json = None\<rparr>"

definition with_json :: "json_value \<Rightarrow> response" where
  "with_json v = \<lparr>status = 200, statusText = ''OK'', json = Some v\<rparr>"

definition query_log_prefix :: string where
  "query_log_prefix = ADGUARD_API_BASE @ ''/oapi/v1/query_log?''"

definition provider_net :: "config \<Rightarrow> provider network" where
  "provider_net cfg w u init =
     (if u = oauth_url then
        (case body init of
           Some (RefreshTokenBody rt) \<Rightarrow>
             if rt = p_refresh w
             then (Resolved (with_json (TokenJson \<lparr>access_token = p_next w, refresh_token = None\<rparr>)),
                   w\<lparr>p_valid := p_next w\<rparr>)
             else (Resolved (plain 400 ''Bad Request''), w)
         | _ \<Rightarrow> (Resolved (plain 400 ''Bad Request''), w))
      else if map_of (headers init) ''Authorization'' \<noteq> Some (bearer (p_valid w))
      then (Resolved (plain 401 ''Unauthorized''), w)
      else if u = get_url cfg \<and> http_method init = None
      then (Resolved (with_json (DnsServerJson
              \<lparr>settings = \<lparr>user_rules_settings = p_rules w\<rparr>\<rparr>)), w)
      else if u = put_url cfg \<and> http_method init = Some ''PUT'' then
        (case body init of
           Some (UserRulesBody en rs) \<Rightarrow>
             (Resolved (plain 200 ''OK''),
              w\<lparr>p_rules := \<lparr>enabled = en, rules = rs, rules_count = length rs\<rparr>\<rparr>)
         | _ \<Rightarrow> (Resolved (plain 400 ''Bad Request''), w))
      else if take (length query_log_prefix) u = query_log_prefix \<and> http_method init = None
      then (Resolved (with_json (QueryLogJson
              \<lparr>items = p_log w, pages = \<lparr>current = 1, total = 1\<rparr>\<rparr>)), w)
      else (Resolved (plain 404 ''Not Found''), w))"

definition demo_cfg :: config where
  "demo_cfg = \<lparr>ADGUARD_DNS_SERVER_ID = Some ''srv1'', ADGUARD_REFRESH_TOKEN = Some ''rt''\<rparr>"

definition demo_item :: "string \<Rightarrow> string \<Rightarrow> string \<Rightarrow> QueryLogItem" where
  "demo_item d t st =
     \<lparr>domain = d, time_iso = t, time_millis = 0,
      filtering_info = Some \<lparr>filtering_status = Some st, filter_rule = None, filter_id = None\<rparr>,
      device_id = None, dns_request_type = None\<rparr>"

definition demo_provider :: "string list \<Rightarrow> provider" where
  "demo_provider rs =
     \<lparr>p_rules = \<lparr>enabled = True, rules = rs, rules_count = length rs\<rparr>,
      p_log = [demo_item ''nflxvideo.net'' ''t1'' ''REQUEST_BLOCKED'',
               demo_item ''example.org'' ''t2'' ''NONE''],
      p_valid = ''t0'', p_refresh = ''rt'', p_next = ''t1''\<rparr>"

definition demo_state :: "string \<Rightarrow> string list \<Rightarrow> provider state" where
  "demo_state tok rs = \<lparr>currentAccessToken = tok, world = demo_provider rs, trace = []\<rparr>"

definition bad_cfg :: config where
  "bad_cfg = \<lparr>ADGUARD_DNS_SERVER_ID = Some ''srv1'', ADGUARD_REFRESH_TOKEN = Some ''stale''\<rparr>"

definition caller_options :: RequestInit where
  "caller_options =
     \<lparr>http_method = None, headers = [(''Authorization'', ''Bearer mine''), (''X-Trace'', ''1'')], body = None\<rparr>"

text \<open>Concrete values for the runs on the reference provider.\<close>

definition demo_server :: "string list \<Rightarrow> dns_server" where
  "demo_server rs =
     \<lparr>settings = \<lparr>user_rules_settings = \<lparr>enabled = True, rules = rs, rules_count = length rs\<rparr>\<rparr>\<rparr>"

definition after_read :: "string list \<Rightarrow> provider state" where
  "after_read rs = (demo_state ''t0'' rs)\<lparr>trace := [(get_url demo_cfg, requestOptions no_options ''t0'')]\<rparr>"

definition demo_result :: unblock_result where
  "demo_result =
     \<lparr>success = True,
      message = ''Successfully added 1 whitelist rule(s) for: b.com'',
      rules_added = [''@@||b.com^''],
      already_whitelisted = [''a.com'']\<rparr>"


definition first_result :: unblock_result where
  "first_result =
     \<lparr>success = True,
      message = ''Successfully added 2 whitelist rule(s) for: a.com, *.b.com'',
      rules_added = [''@@||a.com^'', ''@@||*.b.com^''],
      already_whitelisted = []\<rparr>"

definition demo_page :: QueryLogResponse where
  "demo_page = \<lparr>items = p_log (demo_provider []), pages = \<lparr>current = 1, total = 1\<rparr>\<rparr>"

section \<open>Observing the requests\<close>

text \<open>The only request with method \<open>PUT\<close> in the module is the settings update.\<close>

definition is_write :: "string \<times> RequestInit \<Rightarrow> bool" where
  "is_write q = (http_method (snd q) = Some ''PUT'')"

section \<open>Lemmas about the transport and the loop\<close>

lemma show_nat_0: "show_nat 0 = ''0''" by (simp add: show_nat.simps digit_def)

lemma fetch_trace:
  "fetch net u i s = (r, s') \<Longrightarrow> trace s' = trace s @ [(u, i)] \<and> currentAccessToken s' = currentAccessToken s"
  by (auto simp: fetch_def split: prod.splits)

lemma refresh_cases:
  assumes "refreshAccessToken net cfg s = (r, s')"
  shows "(trace s' = trace s \<and> currentAccessToken s' = currentAccessToken s \<and> (\<exists>e. r = Inl e)) \<or>
         (trace s' = trace s @ [(oauth_url, refresh_request (interpolate (ADGUARD_REFRESH_TOKEN cfg)))] \<and>
          (case r of Inl e \<Rightarrow> currentAccessToken s' = currentAccessToken s
                   | Inr t \<Rightarrow> currentAccessToken s' = t))"
  using assms
  by (auto simp: refreshAccessToken_def
           split: if_splits prod.splits sum.splits option.splits json_value.splits
           dest!: fetch_trace)

lemma call_trace_cases:
  assumes "callAdGuardAPI net cfg u opts s = (r, s')"
  shows "trace s' = trace s \<or>
         trace s' = trace s @ [(u, requestOptions opts (currentAccessToken s))] \<or>
         trace s' = trace s @ [(u, requestOptions opts (currentAccessToken s)),
                               (oauth_url, refresh_request (interpolate (ADGUARD_REFRESH_TOKEN cfg)))] \<or>
         trace s' = trace s @ [(u, requestOptions opts (currentAccessToken s)),
                               (oauth_url, refresh_request (interpolate (ADGUARD_REFRESH_TOKEN cfg))),
                               (u, retryOptions (requestOptions opts (currentAccessToken s))
                                     (currentAccessToken s'))]"
proof (cases "currentAccessToken s = []")
  case True
  with assms show ?thesis by (simp add: callAdGuardAPI_def)
next
  case False
  let ?ro = "requestOptions opts (currentAccessToken s)"
  obtain r1 s1 where f1: "fetch net u ?ro s = (r1, s1)" by (cases "fetch net u ?ro s")
  note t1 = fetch_trace [OF f1]
  show ?thesis
  proof (cases r1)
    case (Inl e)
    with assms False f1 t1 show ?thesis by (simp add: callAdGuardAPI_def)
  next
    case (Inr resp)
    show ?thesis
    proof (cases "status resp = 401")
      case no: False
      with assms False f1 t1 Inr show ?thesis by (simp add: callAdGuardAPI_def)
    next
      case yes: True
      obtain r2 s2 where f2: "refreshAccessToken net cfg s1 = (r2, s2)"
        by (cases "refreshAccessToken net cfg s1")
      note t2 = refresh_cases [OF f2]
      show ?thesis
      proof (cases r2)
        case e: (Inl e)
        with assms False f1 t1 Inr yes f2 t2 show ?thesis
          by (auto simp: callAdGuardAPI_def)
      next
        case tk: (Inr newToken)
        obtain r3 s3 where f3: "fetch net u (retryOptions ?ro newToken) s2 = (r3, s3)"
          by (cases "fetch net u (retryOptions ?ro newToken) s2")
        note t3 = fetch_trace [OF f3]
        from assms False f1 Inr yes f2 tk f3 have "s' = s3"
          by (simp add: callAdGuardAPI_def)
        with t1 t2 t3 tk show ?thesis by auto
      qed
    qed
  qed
qed

lemma call_not_401:
  assumes "currentAccessToken s \<noteq> []"
    and "fetch net u (requestOptions options (currentAccessToken s)) s = (Inr resp, s1)"
    and "status resp \<noteq> 401"
  shows "callAdGuardAPI net cfg u options s = (Inr resp, s1)"
  using assms by (simp add: callAdGuardAPI_def)

lemma call_401:
  assumes "currentAccessToken s \<noteq> []"
    and "fetch net u (requestOptions options (currentAccessToken s)) s = (Inr resp, s1)"
    and "status resp = 401"
  shows "callAdGuardAPI net cfg u options s =
           (case refreshAccessToken net cfg s1 of
              (Inl e, s2) \<Rightarrow> (Inl e, s2)
            | (Inr newToken, s2) \<Rightarrow>
                fetch net u (retryOptions (requestOptions options (currentAccessToken s)) newToken) s2)"
  using assms by (simp add: callAdGuardAPI_def)

lemma map_of_spread:
  "distinct (map fst src) \<Longrightarrow> map_of (spread tgt src) = map_of tgt ++ map_of src"
  unfolding spread_def
proof (induction src arbitrary: tgt)
  case Nil
  then show ?case by simp
next
  case (Cons p src)
  obtain k v where p: "p = (k, v)" by (cases p)
  from Cons.prems p have nk: "k \<notin> fst ` set src" and d: "distinct (map fst src)" by auto
  from nk have none: "map_of src k = None" by (simp add: map_of_eq_None_iff)
  have "map_of (fold (\<lambda>(k, v). AList.update k v) (p # src) tgt) =
          map_of (AList.update k v tgt) ++ map_of src"
    using Cons.IH [OF d, of "AList.update k v tgt"] p by simp
  also have "\<dots> = map_of tgt ++ map_of (p # src)"
  proof (rule ext)
    fix x
    show "(map_of (AList.update k v tgt) ++ map_of src) x = (map_of tgt ++ map_of (p # src)) x"
      using none p by (cases "x = k") (auto simp: map_add_def update_conv' split: option.splits)
  qed
  finally show ?case .
qed

lemmas run_defs = read_dns_server_def callAdGuardAPI_def fetch_def provider_net_def demo_cfg_def demo_state_def
   demo_provider_def falsy_def interpolate_def get_url_def put_url_def oauth_url_def ADGUARD_API_BASE_def
   requestOptions_def spread_def bearer_def no_options_def ok_def with_json_def plain_def
   refreshAccessToken_def refresh_request_def retryOptions_def

lemma unblock_loop_eq:
  "unblock_loop rs ds (nr, aw) =
     (nr @ map whitelistRule (filter (\<lambda>d. whitelistRule d \<notin> set rs) ds),
      aw @ filter (\<lambda>d. whitelistRule d \<in> set rs) ds)"
  by (induction ds arbitrary: nr aw) auto

lemma call_issues_first:
  assumes tok: "currentAccessToken s \<noteq> []"
    and c: "callAdGuardAPI net cfg u opts s = (r, s')"
  shows "\<exists>rest. trace s' = trace s @ (u, requestOptions opts (currentAccessToken s)) # rest \<and>
           (rest = [] \<or>
            rest = [(oauth_url, refresh_request (interpolate (ADGUARD_REFRESH_TOKEN cfg)))] \<or>
            rest = [(oauth_url, refresh_request (interpolate (ADGUARD_REFRESH_TOKEN cfg))),
                    (u, retryOptions (requestOptions opts (currentAccessToken s)) (currentAccessToken s'))])"
proof -
  let ?ro = "requestOptions opts (currentAccessToken s)"
  obtain r1 s1 where f1: "fetch net u ?ro s = (r1, s1)" by (cases "fetch net u ?ro s")
  have grow: "trace s' \<noteq> trace s"
  proof (cases r1)
    case (Inl e)
    with c tok f1 fetch_trace [OF f1] show ?thesis by (simp add: callAdGuardAPI_def)
  next
    case (Inr resp)
    show ?thesis
    proof (cases "status resp = 401")
      case False
      with c tok f1 Inr fetch_trace [OF f1] show ?thesis by (simp add: callAdGuardAPI_def)
    next
      case True
      obtain r2 s2 where f2: "refreshAccessToken net cfg s1 = (r2, s2)"
        by (cases "refreshAccessToken net cfg s1")
      show ?thesis
      proof (cases r2)
        case e: (Inl e)
        with c tok f1 Inr True f2 refresh_cases [OF f2] fetch_trace [OF f1] show ?thesis
          by (auto simp: callAdGuardAPI_def)
      next
        case t: (Inr newToken)
        obtain r3 s3 where f3: "fetch net u (retryOptions ?ro newToken) s2 = (r3, s3)"
          by (cases "fetch net u (retryOptions ?ro newToken) s2")
        from c tok f1 Inr True f2 t f3 have "s' = s3" by (simp add: callAdGuardAPI_def)
        with refresh_cases [OF f2] fetch_trace [OF f1] fetch_trace [OF f3] t show ?thesis
          by auto
      qed
    qed
  qed
  with call_trace_cases [OF c] show ?thesis by auto
qed

lemma call_Inr_token:
  "callAdGuardAPI net cfg u opts s = (Inr resp, s') \<Longrightarrow> currentAccessToken s \<noteq> []"
  by (auto simp: callAdGuardAPI_def split: if_splits)

lemma call_writes:
  assumes c: "callAdGuardAPI net cfg u opts s = (r, s')"
  shows "\<exists>new. trace s' = trace s @ new \<and>
           (\<forall>q \<in> set new. is_write q \<longrightarrow>
              fst q = u \<and> http_method opts = Some ''PUT'' \<and> body (snd q) = body opts)"
  using call_trace_cases [OF c]
  by (elim disjE) (auto simp: is_write_def requestOptions_def retryOptions_def refresh_request_def)

lemma read_trace:
  assumes "read_dns_server net cfg s = (r, s1)"
  shows "\<exists>new. trace s1 = trace s @ new \<and> (\<forall>q \<in> set new. \<not> is_write q)"
proof (cases "falsy (ADGUARD_DNS_SERVER_ID cfg)")
  case True
  with assms show ?thesis by (simp add: read_dns_server_def)
next
  case False
  obtain r0 s0 where c: "callAdGuardAPI net cfg (get_url cfg) no_options s = (r0, s0)"
    by (cases "callAdGuardAPI net cfg (get_url cfg) no_options s")
  with assms False have "s1 = s0"
    by (auto simp: read_dns_server_def split: sum.splits if_splits option.splits json_value.splits)
  with call_writes [OF c] show ?thesis by (auto simp: no_options_def)
qed

lemma read_first_request:
  assumes "read_dns_server net cfg s = (Inr srv, s1)"
  shows "\<exists>rest. trace s1 = trace s @ (get_url cfg, requestOptions no_options (currentAccessToken s)) # rest"
proof -
  obtain r0 s0 where c: "callAdGuardAPI net cfg (get_url cfg) no_options s = (r0, s0)"
    by (cases "callAdGuardAPI net cfg (get_url cfg) no_options s")
  with assms have s: "s1 = s0" and "\<exists>resp. r0 = Inr resp"
    by (auto simp: read_dns_server_def split: sum.splits if_splits option.splits json_value.splits)
  then obtain resp where "r0 = Inr resp" by blast
  with c have "currentAccessToken s \<noteq> []" by (auto dest: call_Inr_token)
  from call_issues_first [OF this c] s show ?thesis by blast
qed

lemma unblock_after_read:
  assumes "read_dns_server net cfg s = (Inr srv, s1)"
  shows "unblockDomainTool net cfg D s =
     (let urs = user_rules_settings (settings srv);
          newRules = map whitelistRule (filter (\<lambda>d. whitelistRule d \<notin> set (rules urs)) D);
          alreadyWhitelisted = filter (\<lambda>d. whitelistRule d \<in> set (rules urs)) D
      in if newRules = []
         then (Inr \<lparr>success = True,
                    message = ''All '' @ show_nat (length D) @ '' domain(s) are already whitelisted'',
                    rules_added = [],
                    already_whitelisted = alreadyWhitelisted\<rparr>, s1)
         else
           (case callAdGuardAPI net cfg (put_url cfg) (put_options (enabled urs) (rules urs @ newRules)) s1 of
              (Inl e, s2) \<Rightarrow> (Inl e, s2)
            | (Inr putResponse, s2) \<Rightarrow>
                if \<not> ok putResponse
                then (Inl (UpdateSettingsFailed (status putResponse) (statusText putResponse)), s2)
                else (Inr \<lparr>success = True,
                           message = ''Successfully added '' @ show_nat (length newRules)
                             @ '' whitelist rule(s) for: ''
                             @ join '', '' (filter (\<lambda>d. d \<notin> set alreadyWhitelisted) D),
                           rules_added = newRules,
                           already_whitelisted = alreadyWhitelisted\<rparr>, s2)))"
  using assms
  by (simp add: unblockDomainTool_def unblock_loop_eq Let_def split: prod.split sum.split)

lemma unblock_all_present:
  assumes read: "read_dns_server net cfg s = (Inr srv, s1)"
    and all: "\<forall>d \<in> set D. whitelistRule d \<in> set (rules (user_rules_settings (settings srv)))"
  shows "unblockDomainTool net cfg D s =
           (Inr \<lparr>success = True,
                 message = ''All '' @ show_nat (length D) @ '' domain(s) are already whitelisted'',
                 rules_added = [],
                 already_whitelisted = D\<rparr>, s1)"
proof -
  from all have "filter (\<lambda>d. whitelistRule d \<notin> set (rules (user_rules_settings (settings srv)))) D = []"
    by (simp add: filter_empty_conv)
  moreover from all have "filter (\<lambda>d. whitelistRule d \<in> set (rules (user_rules_settings (settings srv)))) D = D"
    by (simp add: filter_id_conv)
  ultimately show ?thesis using unblock_after_read [OF read, of D] by (simp add: Let_def)
qed

lemmas tool_defs = unblockDomainTool_def getQueryLogTool_def whitelistRule_def put_options_def
  query_log_url_def query_log_prefix_def show_int_def is_blocked_def opt_chain_def summarise_def
  demo_item_def Let_def

lemma demo_read:
  "read_dns_server (provider_net demo_cfg) demo_cfg (demo_state ''t0'' rs) = (Inr (demo_server rs), after_read rs)"
  by (simp add: run_defs demo_server_def after_read_def)

lemma demo_mixed:
  "fst (unblockDomainTool (provider_net demo_cfg) demo_cfg [''a.com'', ''b.com'']
          (demo_state ''t0'' [''@@||a.com^''])) = Inr demo_result"
  by (simp add: run_defs tool_defs demo_result_def show_nat.simps digit_def)


lemma demo_log_call:
  "callAdGuardAPI (provider_net demo_cfg) demo_cfg (query_log_url (1000000 - 10 * 60 * 1000) 1000000)
     no_options (demo_state ''t0'' []) =
   (Inr (with_json (QueryLogJson demo_page)),
    (demo_state ''t0'' [])\<lparr>trace :=
       [(''https://api.adguard-dns.io/oapi/v1/query_log?time_from_millis=400000&time_to_millis=1000000&limit=200'',
         requestOptions no_options ''t0'')]\<rparr>)"
  by (simp add: run_defs tool_defs demo_page_def show_nat.simps digit_def)

subsection \<open>The reference provider\<close>

lemma get_url_not_oauth: "get_url cfg \<noteq> oauth_url"
  by (simp add: get_url_def oauth_url_def ADGUARD_API_BASE_def)

lemma put_url_not_oauth: "put_url cfg \<noteq> oauth_url"
  by (simp add: put_url_def oauth_url_def ADGUARD_API_BASE_def)

lemma put_url_not_get: "put_url cfg \<noteq> get_url cfg"
  by (simp add: put_url_def get_url_def)

lemma bearer_inject: "bearer a = bearer b \<longleftrightarrow> a = b"
  by (simp add: bearer_def)

lemma auth_requestOptions:
  "map_of (headers (requestOptions opts t)) ''Authorization'' = Some (bearer t)"
  "http_method (requestOptions opts t) = http_method opts"
  "body (requestOptions opts t) = body opts"
  by (simp_all add: requestOptions_def update_conv')

lemma auth_retryOptions:
  "map_of (headers (retryOptions ro t)) ''Authorization'' = Some (bearer t)"
  "http_method (retryOptions ro t) = http_method ro"
  "body (retryOptions ro t) = body ro"
  by (simp_all add: retryOptions_def update_conv')

lemma provider_fetch_get:
  assumes "http_method init = None"
    and "map_of (headers init) ''Authorization'' = Some (bearer t)"
  shows "fetch (provider_net cfg) (get_url cfg) init s =
           (if t = p_valid (world s)
            then Inr (with_json (DnsServerJson \<lparr>settings = \<lparr>user_rules_settings = p_rules (world s)\<rparr>\<rparr>))
            else Inr (plain 401 ''Unauthorized''),
            s\<lparr>trace := trace s @ [(get_url cfg, init)]\<rparr>)"
  using assms by (simp add: fetch_def provider_net_def get_url_not_oauth bearer_inject)

lemma provider_fetch_put:
  assumes "http_method init = Some ''PUT''"
    and "body init = Some (UserRulesBody en rs)"
    and "map_of (headers init) ''Authorization'' = Some (bearer t)"
  shows "fetch (provider_net cfg) (put_url cfg) init s =
           (if t = p_valid (world s)
            then (Inr (plain 200 ''OK''),
                  s\<lparr>world := (world s)\<lparr>p_rules := \<lparr>enabled = en, rules = rs, rules_count = length rs\<rparr>\<rparr>,
                    trace := trace s @ [(put_url cfg, init)]\<rparr>)
            else (Inr (plain 401 ''Unauthorized''), s\<lparr>trace := trace s @ [(put_url cfg, init)]\<rparr>))"
  using assms by (simp add: fetch_def provider_net_def put_url_not_oauth put_url_not_get bearer_inject)

lemma provider_refresh:
  assumes "refreshAccessToken (provider_net cfg) cfg' s = (Inr t, s')"
  shows "t = p_next (world s) \<and> currentAccessToken s' = t \<and>
         world s' = (world s)\<lparr>p_valid := p_next (world s)\<rparr>"
  using assms
  by (auto simp: refreshAccessToken_def fetch_def provider_net_def refresh_request_def ok_def
                 plain_def with_json_def
           split: if_splits prod.splits sum.splits option.splits json_value.splits
                  request_body.splits fetch_outcome.splits)

lemma provider_call:
  assumes F: "\<And>init t s0. http_method init = http_method opts \<Longrightarrow> body init = body opts \<Longrightarrow>
                map_of (headers init) ''Authorization'' = Some (bearer t) \<Longrightarrow>
                fetch (provider_net cfg) u init s0 =
                  (if t = p_valid (world s0)
                   then (Inr (good (world s0)),
                         s0\<lparr>world := upd (world s0), trace := trace s0 @ [(u, init)]\<rparr>)
                   else (Inr (plain 401 ''Unauthorized''), s0\<lparr>trace := trace s0 @ [(u, init)]\<rparr>))"
    and g: "\<And>w. status (good w) \<noteq> 401"
    and c: "callAdGuardAPI (provider_net cfg) cfg' u opts s = (Inr resp, s')"
    and okr: "ok resp"
  shows "\<exists>w0. resp = good w0 \<and> world s' = upd w0 \<and> currentAccessToken s' = p_valid w0 \<and>
              p_rules w0 = p_rules (world s) \<and> p_next w0 = p_next (world s) \<and>
              (currentAccessToken s' = currentAccessToken s \<or> currentAccessToken s' = p_next (world s))"
proof -
  let ?N = "provider_net cfg"
  let ?tok = "currentAccessToken s"
  let ?ro = "requestOptions opts ?tok"
  from c have tok: "?tok \<noteq> []" by (rule call_Inr_token)
  have bad: "\<not> ok (plain 401 ''Unauthorized'')" "status (plain 401 ''Unauthorized'') = 401"
    by (simp_all add: ok_def plain_def)
  note f1 = F [of ?ro ?tok s, OF auth_requestOptions(2) auth_requestOptions(3) auth_requestOptions(1)]
  show ?thesis
  proof (cases "?tok = p_valid (world s)")
    case True
    with f1 have first: "fetch ?N u ?ro s =
        (Inr (good (world s)), s\<lparr>world := upd (world s), trace := trace s @ [(u, ?ro)]\<rparr>)"
      by simp
    from call_not_401 [OF tok first g, of cfg'] c
    have "resp = good (world s)" "s' = s\<lparr>world := upd (world s), trace := trace s @ [(u, ?ro)]\<rparr>"
      by simp_all
    with True show ?thesis by (intro exI [of _ "world s"]) simp
  next
    case False
    let ?s1 = "s\<lparr>trace := trace s @ [(u, ?ro)]\<rparr>"
    from False f1 have first: "fetch ?N u ?ro s = (Inr (plain 401 ''Unauthorized''), ?s1)"
      by simp
    obtain r2 s2 where rf: "refreshAccessToken ?N cfg' ?s1 = (r2, s2)"
      by (cases "refreshAccessToken ?N cfg' ?s1")
    from call_401 [OF tok first bad(2), of cfg'] c rf
    obtain t where r2: "r2 = Inr t"
      and fin: "fetch ?N u (retryOptions ?ro t) s2 = (Inr resp, s')"
      by (cases r2) simp_all
    from provider_refresh [OF rf [unfolded r2]]
    have t: "t = p_next (world s)" and ct: "currentAccessToken s2 = t"
      and w2: "world s2 = (world s)\<lparr>p_valid := p_next (world s)\<rparr>"
      by simp_all
    have "http_method (retryOptions ?ro t) = http_method opts" "body (retryOptions ?ro t) = body opts"
      by (simp_all add: auth_retryOptions auth_requestOptions)
    from F [of "retryOptions ?ro t" t s2, OF this auth_retryOptions(1)] t w2
    have "fetch ?N u (retryOptions ?ro t) s2 =
            (Inr (good (world s2)),
             s2\<lparr>world := upd (world s2), trace := trace s2 @ [(u, retryOptions ?ro t)]\<rparr>)"
      by simp
    with fin have "resp = good (world s2)"
      "s' = s2\<lparr>world := upd (world s2), trace := trace s2 @ [(u, retryOptions ?ro t)]\<rparr>"
      by simp_all
    with t ct w2 show ?thesis by (intro exI [of _ "world s2"]) simp
  qed
qed

lemma provider_read:
  assumes read: "read_dns_server (provider_net cfg) cfg s = (Inr srv, s1)"
  shows "user_rules_settings (settings srv) = p_rules (world s) \<and>
         p_rules (world s1) = p_rules (world s) \<and> p_next (world s1) = p_next (world s) \<and>
         currentAccessToken s1 = p_valid (world s1) \<and>
         (currentAccessToken s1 = currentAccessToken s \<or> currentAccessToken s1 = p_next (world s)) \<and>
         currentAccessToken s \<noteq> []"
proof -
  let ?good = "\<lambda>w. with_json (DnsServerJson \<lparr>settings = \<lparr>user_rules_settings = p_rules w\<rparr>\<rparr>)"
  obtain r0 s0 where c0: "callAdGuardAPI (provider_net cfg) cfg (get_url cfg) no_options s = (r0, s0)"
    by (cases "callAdGuardAPI (provider_net cfg) cfg (get_url cfg) no_options s")
  with read obtain resp where r0: "r0 = Inr resp" and okr: "ok resp"
    and js: "json resp = Some (DnsServerJson srv)" and s1: "s1 = s0"
    by (auto simp: read_dns_server_def split: sum.splits if_splits option.splits json_value.splits)
  note c = c0 [unfolded r0]
  have F: "fetch (provider_net cfg) (get_url cfg) init s0 =
             (if t = p_valid (world s0)
              then (Inr (?good (world s0)),
                    s0\<lparr>world := id (world s0), trace := trace s0 @ [(get_url cfg, init)]\<rparr>)
              else (Inr (plain 401 ''Unauthorized''), s0\<lparr>trace := trace s0 @ [(get_url cfg, init)]\<rparr>))"
    if "http_method init = http_method no_options" "body init = body no_options"
       "map_of (headers init) ''Authorization'' = Some (bearer t)" for init t and s0 :: "provider state"
    using that provider_fetch_get [of init t cfg s0] by (simp add: no_options_def)
  have g: "status (?good w) \<noteq> 401" for w by (simp add: with_json_def)
  from provider_call [of no_options cfg "get_url cfg" ?good id, OF F g c okr]
  obtain w0 where "resp = ?good w0" "world s0 = id w0" "currentAccessToken s0 = p_valid w0"
    "p_rules w0 = p_rules (world s)" "p_next w0 = p_next (world s)"
    "currentAccessToken s0 = currentAccessToken s \<or> currentAccessToken s0 = p_next (world s)"
    by blast
  with js s1 call_Inr_token [OF c] show ?thesis by (auto simp: with_json_def)
qed

lemma provider_write:
  assumes c: "callAdGuardAPI (provider_net cfg) cfg (put_url cfg) (put_options en rs) s = (Inr resp, s1)"
    and okr: "ok resp"
  shows "p_rules (world s1) = \<lparr>enabled = en, rules = rs, rules_count = length rs\<rparr> \<and>
         p_next (world s1) = p_next (world s) \<and>
         currentAccessToken s1 = p_valid (world s1) \<and>
         (currentAccessToken s1 = currentAccessToken s \<or> currentAccessToken s1 = p_next (world s))"
proof -
  let ?upd = "\<lambda>w. w\<lparr>p_rules := \<lparr>enabled = en, rules = rs, rules_count = length rs\<rparr>\<rparr>"
  have F: "fetch (provider_net cfg) (put_url cfg) init s0 =
             (if t = p_valid (world s0)
              then (Inr ((\<lambda>w. plain 200 ''OK'') (world s0)),
                    s0\<lparr>world := ?upd (world s0), trace := trace s0 @ [(put_url cfg, init)]\<rparr>)
              else (Inr (plain 401 ''Unauthorized''), s0\<lparr>trace := trace s0 @ [(put_url cfg, init)]\<rparr>))"
    if "http_method init = http_method (put_options en rs)" "body init = body (put_options en rs)"
       "map_of (headers init) ''Authorization'' = Some (bearer t)" for init t and s0 :: "provider state"
    using that provider_fetch_put [of init en rs t cfg s0] by (simp add: put_options_def)
  have g: "status ((\<lambda>w. plain 200 ''OK'') w) \<noteq> 401" for w :: provider by (simp add: plain_def)
  from provider_call [of "put_options en rs" cfg "put_url cfg" "\<lambda>w. plain 200 ''OK''" ?upd, OF F g c okr]
  obtain w0 where "world s1 = ?upd w0" "currentAccessToken s1 = p_valid w0"
    "p_next w0 = p_next (world s)"
    "currentAccessToken s1 = currentAccessToken s \<or> currentAccessToken s1 = p_next (world s)"
    by blast
  then show ?thesis by auto
qed

lemma provider_read_valid:
  assumes sid: "\<not> falsy (ADGUARD_DNS_SERVER_ID cfg)"
    and tok: "currentAccessToken s \<noteq> []"
    and valid: "currentAccessToken s = p_valid (world s)"
  shows "read_dns_server (provider_net cfg) cfg s =
           (Inr \<lparr>settings = \<lparr>user_rules_settings = p_rules (world s)\<rparr>\<rparr>,
            s\<lparr>trace := trace s @ [(get_url cfg, requestOptions no_options (currentAccessToken s))]\<rparr>)"
proof -
  let ?ro = "requestOptions no_options (currentAccessToken s)"
  have m: "http_method ?ro = None" by (simp add: auth_requestOptions no_options_def)
  from provider_fetch_get [OF m auth_requestOptions(1), of cfg s] valid
  have first: "fetch (provider_net cfg) (get_url cfg) ?ro s =
      (Inr (with_json (DnsServerJson \<lparr>settings = \<lparr>user_rules_settings = p_rules (world s)\<rparr>\<rparr>)),
       s\<lparr>trace := trace s @ [(get_url cfg, ?ro)]\<rparr>)"
    by simp
  have "status (with_json (DnsServerJson \<lparr>settings = \<lparr>user_rules_settings = p_rules (world s)\<rparr>\<rparr>)) \<noteq> 401"
    by (simp add: with_json_def)
  from call_not_401 [OF tok first this, of cfg] sid show ?thesis
    by (simp add: read_dns_server_def ok_def with_json_def)
qed

lemma demo_first_stale:
  "fst (unblockDomainTool (provider_net demo_cfg) demo_cfg [''a.com'', ''*.b.com''] (demo_state ''old'' [])) =
     Inr first_result"
  by (simp add: run_defs tool_defs first_result_def show_nat.simps digit_def)

section \<open>The claims\<close>

text \<open>
  Claim C2. A call whose first request resolves: when the first response is 401 and the
  refresh returns a new token, the result of the call is the result of one further request
  to the same URL, carrying the new token, whatever its status; the requests issued are
  the original one, the refresh exchange and that retry, in this order; the token in
  memory afterwards is the new one. When the first response has another status, it is
  the result, the only request issued is the original one and the token is unchanged.
\<close>

theorem refresh_and_retry:
  assumes tok: "currentAccessToken s \<noteq> []"
    and first: "fetch net u (requestOptions options (currentAccessToken s)) s = (Inr resp, s1)"
  shows "(status resp = 401 \<longrightarrow>
           (\<forall>newToken s2. refreshAccessToken net cfg s1 = (Inr newToken, s2) \<longrightarrow>
              callAdGuardAPI net cfg u options s =
                fetch net u (retryOptions (requestOptions options (currentAccessToken s)) newToken) s2 \<and>
              trace (snd (callAdGuardAPI net cfg u options s)) =
                trace s @ [(u, requestOptions options (currentAccessToken s)),
                           (oauth_url, refresh_request (interpolate (ADGUARD_REFRESH_TOKEN cfg))),
                           (u, retryOptions (requestOptions options (currentAccessToken s)) newToken)] \<and>
              map_of (headers (retryOptions (requestOptions options (currentAccessToken s)) newToken))
                ''Authorization'' = Some (bearer newToken) \<and>
              currentAccessToken (snd (callAdGuardAPI net cfg u options s)) = newToken)) \<and>
         (status resp \<noteq> 401 \<longrightarrow>
            callAdGuardAPI net cfg u options s = (Inr resp, s1) \<and>
            trace s1 = trace s @ [(u, requestOptions options (currentAccessToken s))] \<and>
            currentAccessToken s1 = currentAccessToken s)"
proof (intro conjI impI allI)
  assume no: "status resp \<noteq> 401"
  show "callAdGuardAPI net cfg u options s = (Inr resp, s1)"
    by (rule call_not_401 [OF tok first no])
  show "trace s1 = trace s @ [(u, requestOptions options (currentAccessToken s))]"
    using fetch_trace [OF first] by simp
  show "currentAccessToken s1 = currentAccessToken s"
    using fetch_trace [OF first] by simp
next
  fix newToken s2
  let ?ro = "requestOptions options (currentAccessToken s)"
  assume yes: "status resp = 401" and rf: "refreshAccessToken net cfg s1 = (Inr newToken, s2)"
  show eq: "callAdGuardAPI net cfg u options s = fetch net u (retryOptions ?ro newToken) s2"
    using call_401 [OF tok first yes, of cfg] rf by simp
  obtain r3 s3 where f3: "fetch net u (retryOptions ?ro newToken) s2 = (r3, s3)"
    by (cases "fetch net u (retryOptions ?ro newToken) s2")
  from refresh_cases [OF rf]
  have t2: "trace s2 = trace s1 @ [(oauth_url, refresh_request (interpolate (ADGUARD_REFRESH_TOKEN cfg)))]"
    and c2: "currentAccessToken s2 = newToken" by auto
  show "trace (snd (callAdGuardAPI net cfg u options s)) =
          trace s @ [(u, ?ro),
                     (oauth_url, refresh_request (interpolate (ADGUARD_REFRESH_TOKEN cfg))),
                     (u, retryOptions ?ro newToken)]"
    using eq f3 fetch_trace [OF f3] fetch_trace [OF first] t2 by simp
  show "currentAccessToken (snd (callAdGuardAPI net cfg u options s)) = newToken"
    using eq f3 fetch_trace [OF f3] c2 by simp
  show "map_of (headers (retryOptions ?ro newToken)) ''Authorization'' = Some (bearer newToken)"
    by (simp add: retryOptions_def update_conv')
qed

theorem refresh_and_retry_witness:
  "currentAccessToken (demo_state ''old'' []) \<noteq> [] \<and>
   status (plain 401 ''Unauthorized'') = 401 \<and>
   fst (callAdGuardAPI (provider_net demo_cfg) demo_cfg (get_url demo_cfg) no_options
          (demo_state ''old'' [])) =
     Inr (with_json (DnsServerJson \<lparr>settings = \<lparr>user_rules_settings = p_rules (demo_provider [])\<rparr>\<rparr>)) \<and>
   currentAccessToken (snd (callAdGuardAPI (provider_net demo_cfg) demo_cfg (get_url demo_cfg)
          no_options (demo_state ''old'' []))) = ''t1'' \<and>
   currentAccessToken (demo_state ''t0'' []) \<noteq> [] \<and>
   status (with_json (DnsServerJson \<lparr>settings = \<lparr>user_rules_settings = p_rules (demo_provider [])\<rparr>\<rparr>))
     \<noteq> 401 \<and>
   callAdGuardAPI (provider_net demo_cfg) demo_cfg (get_url demo_cfg) no_options (demo_state ''t0'' []) =
     (Inr (with_json (DnsServerJson \<lparr>settings = \<lparr>user_rules_settings = p_rules (demo_provider [])\<rparr>\<rparr>)),
      (demo_state ''t0'' [])\<lparr>trace := [(get_url demo_cfg, requestOptions no_options ''t0'')]\<rparr>)"
proof -
  let ?net = "provider_net demo_cfg"
  let ?u = "get_url demo_cfg"
  let ?ok = "with_json (DnsServerJson \<lparr>settings = \<lparr>user_rules_settings = p_rules (demo_provider [])\<rparr>\<rparr>)"
  let ?sa = "demo_state ''old'' []"
  let ?sa1 = "?sa\<lparr>trace := [(?u, requestOptions no_options ''old'')]\<rparr>"
  let ?sa2 = "?sa1\<lparr>currentAccessToken := ''t1'',
                   world := (demo_provider [])\<lparr>p_valid := ''t1''\<rparr>,
                   trace := trace ?sa1 @ [(oauth_url, refresh_request ''rt'')]\<rparr>"
  let ?sb = "demo_state ''t0'' []"
  let ?sb1 = "?sb\<lparr>trace := [(?u, requestOptions no_options ''t0'')]\<rparr>"
  have ta: "currentAccessToken ?sa \<noteq> []" by (simp add: demo_state_def)
  have fa: "fetch ?net ?u (requestOptions no_options (currentAccessToken ?sa)) ?sa =
              (Inr (plain 401 ''Unauthorized''), ?sa1)"
    by (simp add: run_defs)
  have st: "status (plain 401 ''Unauthorized'') = 401" by (simp add: plain_def)
  have ra: "refreshAccessToken ?net demo_cfg ?sa1 = (Inr ''t1'', ?sa2)"
    by (simp add: run_defs)
  have f2: "fetch ?net ?u (retryOptions (requestOptions no_options (currentAccessToken ?sa)) ''t1'') ?sa2 =
              (Inr ?ok, ?sa2\<lparr>trace := trace ?sa2 @ [(?u, retryOptions (requestOptions no_options ''old'') ''t1'')]\<rparr>)"
    by (simp add: run_defs)
  have tb: "currentAccessToken ?sb \<noteq> []" by (simp add: demo_state_def)
  have fb: "fetch ?net ?u (requestOptions no_options (currentAccessToken ?sb)) ?sb = (Inr ?ok, ?sb1)"
    by (simp add: run_defs)
  have sb: "status ?ok \<noteq> 401" by (simp add: with_json_def)
  from refresh_and_retry [OF ta fa, of demo_cfg] st ra f2
  have a: "fst (callAdGuardAPI ?net demo_cfg ?u no_options ?sa) = Inr ?ok \<and>
           currentAccessToken (snd (callAdGuardAPI ?net demo_cfg ?u no_options ?sa)) = ''t1''"
    by simp
  from refresh_and_retry [OF tb fb, of demo_cfg] sb
  have b: "callAdGuardAPI ?net demo_cfg ?u no_options ?sb = (Inr ?ok, ?sb1)"
    by simp
  from ta st a tb sb b show ?thesis by simp
qed

text \<open>
  Claim C3. When the first response is 401 and the refresh exchange answers with a status
  outside 200 to 299, the call fails with the refresh error, which carries the status and
  the status text of the refresh response; exactly two requests were issued, the original
  one and the refresh exchange, so the original request was not retried, and the token in
  memory is unchanged.
\<close>

theorem refresh_failure_propagates:
  assumes tok: "currentAccessToken s \<noteq> []"
    and first: "fetch net u (requestOptions options (currentAccessToken s)) s = (Inr resp, s1)"
    and unauth: "status resp = 401"
    and rt: "\<not> falsy (ADGUARD_REFRESH_TOKEN cfg)"
    and exch: "fetch net oauth_url (refresh_request (interpolate (ADGUARD_REFRESH_TOKEN cfg))) s1 =
                 (Inr rr, s2)"
    and bad: "\<not> ok rr"
  shows "callAdGuardAPI net cfg u options s = (Inl (RefreshFailed (status rr) (statusText rr)), s2) \<and>
         error_message (RefreshFailed (status rr) (statusText rr)) =
           ''Failed to refresh token: '' @ show_nat (status rr) @ '' '' @ statusText rr \<and>
         trace s2 = trace s @ [(u, requestOptions options (currentAccessToken s)),
                               (oauth_url, refresh_request (interpolate (ADGUARD_REFRESH_TOKEN cfg)))] \<and>
         currentAccessToken s2 = currentAccessToken s"
proof -
  have rf: "refreshAccessToken net cfg s1 = (Inl (RefreshFailed (status rr) (statusText rr)), s2)"
    using rt exch bad by (simp add: refreshAccessToken_def)
  have "callAdGuardAPI net cfg u options s = (Inl (RefreshFailed (status rr) (statusText rr)), s2)"
    using call_401 [OF tok first unauth, of cfg] rf by simp
  moreover have "trace s2 = trace s @ [(u, requestOptions options (currentAccessToken s)),
                   (oauth_url, refresh_request (interpolate (ADGUARD_REFRESH_TOKEN cfg)))]"
    using fetch_trace [OF first] fetch_trace [OF exch] by simp
  moreover have "currentAccessToken s2 = currentAccessToken s"
    using fetch_trace [OF first] fetch_trace [OF exch] by simp
  ultimately show ?thesis by simp
qed

theorem refresh_failure_propagates_witness:
  "currentAccessToken (demo_state ''old'' []) \<noteq> [] \<and>
   status (plain 401 ''Unauthorized'') = 401 \<and>
   \<not> falsy (ADGUARD_REFRESH_TOKEN bad_cfg) \<and>
   \<not> ok (plain 400 ''Bad Request'') \<and>
   callAdGuardAPI (provider_net demo_cfg) bad_cfg (get_url demo_cfg) no_options (demo_state ''old'' []) =
     (Inl (RefreshFailed 400 ''Bad Request''),
      (demo_state ''old'' [])\<lparr>trace := [(get_url demo_cfg, requestOptions no_options ''old''),
                                           (oauth_url, refresh_request ''stale'')]\<rparr>) \<and>
   error_message (RefreshFailed 400 ''Bad Request'') = ''Failed to refresh token: 400 Bad Request''"
proof -
  let ?net = "provider_net demo_cfg"
  let ?u = "get_url demo_cfg"
  let ?s = "demo_state ''old'' []"
  let ?s1 = "?s\<lparr>trace := [(?u, requestOptions no_options ''old'')]\<rparr>"
  let ?s2 = "?s\<lparr>trace := [(?u, requestOptions no_options ''old''), (oauth_url, refresh_request ''stale'')]\<rparr>"
  have tok: "currentAccessToken ?s \<noteq> []" by (simp add: demo_state_def)
  have first: "fetch ?net ?u (requestOptions no_options (currentAccessToken ?s)) ?s =
                 (Inr (plain 401 ''Unauthorized''), ?s1)"
    by (simp add: run_defs)
  have unauth: "status (plain 401 ''Unauthorized'') = 401" by (simp add: plain_def)
  have rt: "\<not> falsy (ADGUARD_REFRESH_TOKEN bad_cfg)" by (simp add: bad_cfg_def falsy_def)
  have exch: "fetch ?net oauth_url (refresh_request (interpolate (ADGUARD_REFRESH_TOKEN bad_cfg))) ?s1 =
                (Inr (plain 400 ''Bad Request''), ?s2)"
    by (simp add: run_defs bad_cfg_def)
  have bad: "\<not> ok (plain 400 ''Bad Request'')" by (simp add: ok_def plain_def)
  have sn: "show_nat 400 = ''400''" by (simp add: show_nat.simps digit_def)
  from refresh_failure_propagates [OF tok first unauth rt exch bad] tok unauth rt bad sn
  show ?thesis by (simp add: plain_def)
qed

text \<open>
  Claim C9. Every call that reaches the network first issues a request to the given URL
  with the caller's method and body and with headers that are the caller's headers, the
  default content type where the caller gives none, and \<open>Authorization: Bearer\<close> of the
  token in memory; the token's value overrides an \<open>Authorization\<close> header of the caller.
  What follows that request is nothing, the refresh exchange, or the refresh exchange and
  the retry, whose headers differ only in \<open>Authorization\<close>, now the refreshed token's.
\<close>

theorem authorization_header_wins:
  assumes tok: "currentAccessToken s \<noteq> []"
    and obj: "distinct (map fst (headers options))"
  shows "\<exists>ro rest.
           trace (snd (callAdGuardAPI net cfg u options s)) = trace s @ (u, ro) # rest \<and>
           http_method ro = http_method options \<and> body ro = body options \<and>
           map_of (headers ro) =
             (map_of [(''Content-Type'', ''application/json'')] ++ map_of (headers options))
               (''Authorization'' \<mapsto> bearer (currentAccessToken s)) \<and>
           (rest = [] \<or>
            rest = [(oauth_url, refresh_request (interpolate (ADGUARD_REFRESH_TOKEN cfg)))] \<or>
            (\<exists>ro'. rest = [(oauth_url, refresh_request (interpolate (ADGUARD_REFRESH_TOKEN cfg))), (u, ro')] \<and>
                   http_method ro' = http_method options \<and> body ro' = body options \<and>
                   map_of (headers ro') =
                     (map_of (headers ro))(''Authorization'' \<mapsto>
                        bearer (currentAccessToken (snd (callAdGuardAPI net cfg u options s))))))"
proof -
  let ?ro = "requestOptions options (currentAccessToken s)"
  obtain r s' where c: "callAdGuardAPI net cfg u options s = (r, s')"
    by (cases "callAdGuardAPI net cfg u options s")
  have hd: "map_of (headers ?ro) =
              (map_of [(''Content-Type'', ''application/json'')] ++ map_of (headers options))
                (''Authorization'' \<mapsto> bearer (currentAccessToken s))"
    using map_of_spread [OF obj] by (simp add: requestOptions_def update_conv')
  have m: "http_method ?ro = http_method options" "body ?ro = body options"
    by (simp_all add: requestOptions_def)
  have m': "http_method (retryOptions ?ro t) = http_method options" "body (retryOptions ?ro t) = body options"
    "map_of (headers (retryOptions ?ro t)) = (map_of (headers ?ro))(''Authorization'' \<mapsto> bearer t)" for t
    by (simp_all add: requestOptions_def retryOptions_def update_conv')
  from call_issues_first [OF tok c]
  consider "trace s' = trace s @ (u, ?ro) # []"
    | "trace s' = trace s @ (u, ?ro) # [(oauth_url, refresh_request (interpolate (ADGUARD_REFRESH_TOKEN cfg)))]"
    | "trace s' = trace s @ (u, ?ro) # [(oauth_url, refresh_request (interpolate (ADGUARD_REFRESH_TOKEN cfg))),
                                       (u, retryOptions ?ro (currentAccessToken s'))]"
    by auto
  then show ?thesis
  proof cases
    case 1
    with c hd m show ?thesis by auto
  next
    case 2
    with c hd m show ?thesis by auto
  next
    case 3
    with c hd m m' [of "currentAccessToken s'"] show ?thesis by auto
  qed
qed

theorem authorization_header_wins_witness:
  "currentAccessToken (demo_state ''t0'' []) \<noteq> [] \<and>
   distinct (map fst (headers caller_options)) \<and>
   trace (snd (callAdGuardAPI (provider_net demo_cfg) demo_cfg (get_url demo_cfg) caller_options
                 (demo_state ''t0'' []))) =
     [(get_url demo_cfg,
       \<lparr>http_method = None,
        headers = [(''Content-Type'', ''application/json''), (''Authorization'', ''Bearer t0''),
                   (''X-Trace'', ''1'')],
        body = None\<rparr>)] \<and>
   (\<exists>ro rest.
      trace (snd (callAdGuardAPI (provider_net demo_cfg) demo_cfg (get_url demo_cfg) caller_options
                    (demo_state ''t0'' []))) = (get_url demo_cfg, ro) # rest \<and>
      map_of (headers ro) ''Authorization'' = Some ''Bearer t0'')"
proof -
  let ?s = "demo_state ''t0'' []"
  have tok: "currentAccessToken ?s \<noteq> []" by (simp add: demo_state_def)
  have obj: "distinct (map fst (headers caller_options))" by (simp add: caller_options_def)
  have run: "trace (snd (callAdGuardAPI (provider_net demo_cfg) demo_cfg (get_url demo_cfg)
                caller_options ?s)) =
     [(get_url demo_cfg,
       \<lparr>http_method = None,
        headers = [(''Content-Type'', ''application/json''), (''Authorization'', ''Bearer t0''),
                   (''X-Trace'', ''1'')],
        body = None\<rparr>)]"
    by (simp add: run_defs caller_options_def)
  from authorization_header_wins [OF tok obj, of "provider_net demo_cfg" demo_cfg "get_url demo_cfg"]
  obtain ro rest where
    "trace (snd (callAdGuardAPI (provider_net demo_cfg) demo_cfg (get_url demo_cfg) caller_options ?s)) =
       trace ?s @ (get_url demo_cfg, ro) # rest"
    "map_of (headers ro) =
       (map_of [(''Content-Type'', ''application/json'')] ++ map_of (headers caller_options))
         (''Authorization'' \<mapsto> bearer (currentAccessToken ?s))"
    by blast
  then have "\<exists>ro rest.
      trace (snd (callAdGuardAPI (provider_net demo_cfg) demo_cfg (get_url demo_cfg) caller_options ?s)) =
        (get_url demo_cfg, ro) # rest \<and>
      map_of (headers ro) ''Authorization'' = Some ''Bearer t0''"
    by (auto simp: demo_state_def bearer_def)
  with tok obj run show ?thesis by blast
qed

text \<open>
  Claim C6. When the transport returns a successful response whose body is a query-log
  page, the tool returns as \<open>blocked_domains\<close> the entries of the page whose filtering
  status is \<open>REQUEST_BLOCKED\<close> or \<open>RESPONSE_BLOCKED\<close>, in the page's order, each
  projected to its domain, its time, its filter rule and its filter id, and as
  \<open>total_queries\<close> the number of all entries of the page.
\<close>

theorem query_log_filtering:
  assumes call: "callAdGuardAPI net cfg (query_log_url (now - minutes * 60 * 1000) now) no_options s =
                   (Inr resp, s1)"
    and good: "ok resp"
    and page: "json resp = Some (QueryLogJson data)"
  shows "getQueryLogTool net cfg now minutes s =
           (Inr \<lparr>blocked_domains =
                   map (\<lambda>item. \<lparr>domain_out = domain item,
                                 blocked_at = time_iso item,
                                 filter_rule_out =
                                   (case filtering_info item of None \<Rightarrow> None | Some fi \<Rightarrow> filter_rule fi),
                                 filter_id_out =
                                   (case filtering_info item of None \<Rightarrow> None | Some fi \<Rightarrow> filter_id fi)\<rparr>)
                     (filter (\<lambda>item. \<exists>fi. filtering_info item = Some fi \<and>
                                 (filtering_status fi = Some ''REQUEST_BLOCKED'' \<or>
                                  filtering_status fi = Some ''RESPONSE_BLOCKED''))
                        (items data)),
                 total_queries = length (items data)\<rparr>, s1)"
proof -
  have p: "is_blocked = (\<lambda>item. \<exists>fi. filtering_info item = Some fi \<and>
                                 (filtering_status fi = Some ''REQUEST_BLOCKED'' \<or>
                                  filtering_status fi = Some ''RESPONSE_BLOCKED''))"
    by (rule ext) (auto simp: is_blocked_def opt_chain_def split: option.splits)
  have m: "summarise = (\<lambda>item. \<lparr>domain_out = domain item,
                                 blocked_at = time_iso item,
                                 filter_rule_out =
                                   (case filtering_info item of None \<Rightarrow> None | Some fi \<Rightarrow> filter_rule fi),
                                 filter_id_out =
                                   (case filtering_info item of None \<Rightarrow> None | Some fi \<Rightarrow> filter_id fi)\<rparr>)"
    by (rule ext) (simp add: summarise_def opt_chain_def)
  from call good page show ?thesis
    unfolding p [symmetric] m [symmetric] by (simp add: getQueryLogTool_def Let_def)
qed

theorem query_log_filtering_witness:
  "ok (with_json (QueryLogJson demo_page)) \<and>
   json (with_json (QueryLogJson demo_page)) = Some (QueryLogJson demo_page) \<and>
   fst (getQueryLogTool (provider_net demo_cfg) demo_cfg 1000000 10 (demo_state ''t0'' [])) =
     Inr \<lparr>blocked_domains =
            [\<lparr>domain_out = ''nflxvideo.net'', blocked_at = ''t1'',
              filter_rule_out = None, filter_id_out = None\<rparr>],
          total_queries = 2\<rparr>"
proof -
  have good: "ok (with_json (QueryLogJson demo_page))" by (simp add: ok_def with_json_def)
  have page: "json (with_json (QueryLogJson demo_page)) = Some (QueryLogJson demo_page)"
    by (simp add: with_json_def)
  from query_log_filtering [OF demo_log_call good page] good page show ?thesis
    by (simp add: demo_page_def demo_provider_def demo_item_def)
qed

text \<open>
  Claim C5. When the read of the configuration succeeds and the call returns a result,
  \<open>already_whitelisted\<close> is the sublist of the input domains whose canonical rule is a
  member of the rules read, and \<open>rules_added\<close> is the list of the canonical rules
  \<open>@@||d^\<close> of the other input domains, both in input order.
\<close>

theorem partition_correct:
  assumes read: "read_dns_server net cfg s = (Inr srv, s1)"
    and run: "unblockDomainTool net cfg D s = (Inr r, s2)"
  shows "already_whitelisted r =
           filter (\<lambda>d. whitelistRule d \<in> set (rules (user_rules_settings (settings srv)))) D \<and>
         rules_added r =
           map (\<lambda>d. ''@@||'' @ d @ ''^'')
             (filter (\<lambda>d. whitelistRule d \<notin> set (rules (user_rules_settings (settings srv)))) D) \<and>
         success r"
proof -
  have w: "whitelistRule = (\<lambda>d. ''@@||'' @ d @ ''^'')" by (rule ext) (simp add: whitelistRule_def)
  from run unblock_after_read [OF read, of D] show ?thesis
    unfolding w [symmetric]
    by (auto simp: Let_def split: if_splits prod.splits sum.splits)
qed

theorem partition_correct_witness:
  "(\<exists>s2. unblockDomainTool (provider_net demo_cfg) demo_cfg [''a.com'', ''b.com'']
            (demo_state ''t0'' [''@@||a.com^'']) = (Inr demo_result, s2)) \<and>
   already_whitelisted demo_result = [''a.com''] \<and>
   rules_added demo_result = [''@@||b.com^'']"
proof -
  let ?run = "unblockDomainTool (provider_net demo_cfg) demo_cfg [''a.com'', ''b.com'']
                (demo_state ''t0'' [''@@||a.com^''])"
  have run: "?run = (Inr demo_result, snd ?run)"
    using demo_mixed by (metis prod.collapse)
  from partition_correct [OF demo_read run] run show ?thesis
    by (auto simp: demo_server_def whitelistRule_def)
qed

text \<open>
  Claim C7. When the read of the configuration succeeds and the canonical rule of every
  input domain is a member of the rules read, the call returns success with no rule added
  and every input domain reported as already whitelisted, and its final state is the
  state after the read: no request with method \<open>PUT\<close> was issued.
\<close>

theorem short_circuit_without_write:
  assumes read: "read_dns_server net cfg s = (Inr srv, s1)"
    and all: "\<forall>d \<in> set D. whitelistRule d \<in> set (rules (user_rules_settings (settings srv)))"
  shows "unblockDomainTool net cfg D s =
           (Inr \<lparr>success = True,
                 message = ''All '' @ show_nat (length D) @ '' domain(s) are already whitelisted'',
                 rules_added = [],
                 already_whitelisted = D\<rparr>, s1) \<and>
         (\<exists>new. trace (snd (unblockDomainTool net cfg D s)) = trace s @ new \<and>
                (\<forall>q \<in> set new. \<not> is_write q))"
  using unblock_all_present [OF read all] read_trace [OF read] by simp

theorem short_circuit_without_write_witness:
  "whitelistRule ''a.com'' \<in> set (rules (user_rules_settings (settings (demo_server [''@@||a.com^''])))) \<and>
   unblockDomainTool (provider_net demo_cfg) demo_cfg [''a.com''] (demo_state ''t0'' [''@@||a.com^'']) =
       (Inr \<lparr>success = True,
             message = ''All 1 domain(s) are already whitelisted'',
             rules_added = [],
             already_whitelisted = [''a.com'']\<rparr>, after_read [''@@||a.com^''])"
proof -
  have all: "\<forall>d \<in> set [''a.com'']. whitelistRule d \<in> set (rules (user_rules_settings (settings (demo_server [''@@||a.com^'']))))"
    by (simp add: whitelistRule_def demo_server_def)
  have sn: "show_nat (length [''a.com'']) = ''1''" by (simp add: show_nat.simps digit_def)
  from short_circuit_without_write [OF demo_read all] all sn show ?thesis by simp
qed

text \<open>
  Claim C10. On the empty list of domains, when the read of the configuration succeeds,
  the call returns success with no rule added, no domain already whitelisted and the
  message that all 0 domain(s) are already whitelisted; the requests it issued start with
  the read of the server resource and none of them is a write.
\<close>

theorem unblock_empty_input:
  assumes read: "read_dns_server net cfg s = (Inr srv, s1)"
  shows "unblockDomainTool net cfg [] s =
           (Inr \<lparr>success = True,
                 message = ''All 0 domain(s) are already whitelisted'',
                 rules_added = [],
                 already_whitelisted = []\<rparr>, s1) \<and>
         (\<exists>rest. trace (snd (unblockDomainTool net cfg [] s)) =
                    trace s @ (get_url cfg, requestOptions no_options (currentAccessToken s)) # rest \<and>
                 (\<forall>q \<in> set ((get_url cfg, requestOptions no_options (currentAccessToken s)) # rest).
                    \<not> is_write q))"
proof -
  have run: "unblockDomainTool net cfg [] s =
           (Inr \<lparr>success = True,
                 message = ''All 0 domain(s) are already whitelisted'',
                 rules_added = [],
                 already_whitelisted = []\<rparr>, s1)"
    using unblock_all_present [OF read, of "[]"] by (simp add: show_nat_0)
  from read_first_request [OF read] obtain rest where
    t: "trace s1 = trace s @ (get_url cfg, requestOptions no_options (currentAccessToken s)) # rest"
    by blast
  from read_trace [OF read] t
  have "\<forall>q \<in> set ((get_url cfg, requestOptions no_options (currentAccessToken s)) # rest). \<not> is_write q"
    by auto
  with run t show ?thesis by auto
qed

theorem unblock_empty_input_witness:
  "unblockDomainTool (provider_net demo_cfg) demo_cfg [] (demo_state ''t0'' [''@@||a.com^'']) =
       (Inr \<lparr>success = True,
             message = ''All 0 domain(s) are already whitelisted'',
             rules_added = [],
             already_whitelisted = []\<rparr>, after_read [''@@||a.com^''])"
  using unblock_empty_input [OF demo_read] by simp



text \<open>
  Claim C4, on the reference provider, which applies a settings update and issues
  non-empty tokens. Whenever a call of unblock on \<open>D\<close> succeeds, from any state of the
  provider and any token in memory, the provider's rules afterwards are the rules it held
  before followed by the rules the call reports as added, with the enabled flag
  unchanged, and they contain the canonical rule of every domain of \<open>D\<close>. A second call
  on \<open>D\<close> from the state the first one left returns success with no rule added and all
  of \<open>D\<close> already whitelisted; it issues the read of the server resource and nothing
  else, so no write, and the provider's state is unchanged. This holds for every domain
  string, with or without wildcard characters.
\<close>

theorem unblock_idempotent:
  assumes first: "unblockDomainTool (provider_net cfg) cfg D s = (Inr r1, s1)"
    and issued: "p_next (world s) \<noteq> []"
  shows "rules (p_rules (world s1)) = rules (p_rules (world s)) @ rules_added r1 \<and>
         enabled (p_rules (world s1)) = enabled (p_rules (world s)) \<and>
         (\<forall>d \<in> set D. whitelistRule d \<in> set (rules (p_rules (world s1)))) \<and>
         (\<exists>s2. unblockDomainTool (provider_net cfg) cfg D s1 =
                  (Inr \<lparr>success = True,
                        message = ''All '' @ show_nat (length D) @ '' domain(s) are already whitelisted'',
                        rules_added = [],
                        already_whitelisted = D\<rparr>, s2) \<and>
               world s2 = world s1 \<and>
               trace s2 = trace s1 @ [(get_url cfg, requestOptions no_options (currentAccessToken s1))] \<and>
               \<not> is_write (get_url cfg, requestOptions no_options (currentAccessToken s1)))"
proof -
  let ?N = "provider_net cfg"
  obtain rr sa where read: "read_dns_server ?N cfg s = (rr, sa)"
    by (cases "read_dns_server ?N cfg s")
  with first obtain srv where rr: "rr = Inr srv"
    by (cases rr) (simp_all add: unblockDomainTool_def)
  note read = read [unfolded rr]
  from read have sid: "\<not> falsy (ADGUARD_DNS_SERVER_ID cfg)"
    by (auto simp: read_dns_server_def split: if_splits)
  let ?urs = "user_rules_settings (settings srv)"
  let ?nr = "map whitelistRule (filter (\<lambda>d. whitelistRule d \<notin> set (rules ?urs)) D)"
  from provider_read [OF read]
  have urs: "?urs = p_rules (world s)" and ra: "p_rules (world sa) = p_rules (world s)"
    and na: "p_next (world sa) = p_next (world s)"
    and va: "currentAccessToken sa = p_valid (world sa)"
    and ta: "currentAccessToken sa = currentAccessToken s \<or> currentAccessToken sa = p_next (world s)"
    and t0: "currentAccessToken s \<noteq> []"
    by blast+
  from ta t0 issued have tna: "currentAccessToken sa \<noteq> []" by auto
  have left: "p_rules (world s1) =
                \<lparr>enabled = enabled (p_rules (world s)),
                 rules = rules (p_rules (world s)) @ rules_added r1,
                 rules_count = rules_count (p_rules (world s1))\<rparr> \<and>
              rules_added r1 = ?nr \<and>
              currentAccessToken s1 = p_valid (world s1) \<and> currentAccessToken s1 \<noteq> []"
  proof (cases "?nr = []")
    case True
    with first unblock_after_read [OF read, of D] have "s1 = sa" "rules_added r1 = []"
      by (auto simp: Let_def)
    with True ra va tna show ?thesis by simp
  next
    case False
    let ?po = "put_options (enabled ?urs) (rules ?urs @ ?nr)"
    obtain r2 s2 where c: "callAdGuardAPI ?N cfg (put_url cfg) ?po sa = (r2, s2)"
      by (cases "callAdGuardAPI ?N cfg (put_url cfg) ?po sa")
    from False c first unblock_after_read [OF read, of D]
    obtain resp where r2: "r2 = Inr resp" and okr: "ok resp" and fin: "s1 = s2"
      and added: "rules_added r1 = ?nr"
      by (cases r2) (auto simp: Let_def split: if_splits)
    from provider_write [OF c [unfolded r2] okr] fin
    have w: "p_rules (world s1) =
               \<lparr>enabled = enabled ?urs, rules = rules ?urs @ ?nr, rules_count = length (rules ?urs @ ?nr)\<rparr>"
      and v1: "currentAccessToken s1 = p_valid (world s1)"
      and t1: "currentAccessToken s1 = currentAccessToken sa \<or> currentAccessToken s1 = p_next (world sa)"
      by blast+
    from t1 tna na issued have "currentAccessToken s1 \<noteq> []" by auto
    with w v1 added urs show ?thesis by simp
  qed
  then have pr: "p_rules (world s1) =
                \<lparr>enabled = enabled (p_rules (world s)),
                 rules = rules (p_rules (world s)) @ rules_added r1,
                 rules_count = rules_count (p_rules (world s1))\<rparr>"
    and added: "rules_added r1 = ?nr"
    and v1: "currentAccessToken s1 = p_valid (world s1)" and n1: "currentAccessToken s1 \<noteq> []"
    by blast+
  have r1: "rules (p_rules (world s1)) = rules (p_rules (world s)) @ rules_added r1"
    using arg_cong [OF pr, of rules] by simp
  have e1: "enabled (p_rules (world s1)) = enabled (p_rules (world s))"
    using arg_cong [OF pr, of enabled] by simp
  have all: "\<forall>d \<in> set D. whitelistRule d \<in> set (rules (p_rules (world s1)))"
    unfolding r1 added urs [symmetric] by auto
  let ?s2 = "s1\<lparr>trace := trace s1 @ [(get_url cfg, requestOptions no_options (currentAccessToken s1))]\<rparr>"
  note read2 = provider_read_valid [OF sid n1 v1]
  from all have all2: "\<forall>d \<in> set D. whitelistRule d \<in>
      set (rules (user_rules_settings (settings \<lparr>settings = \<lparr>user_rules_settings = p_rules (world s1)\<rparr>\<rparr>)))"
    by simp
  have nw: "\<not> is_write (get_url cfg, requestOptions no_options (currentAccessToken s1))"
    by (simp add: is_write_def auth_requestOptions no_options_def)
  from unblock_all_present [OF read2 all2] nw
  have "\<exists>s2. unblockDomainTool ?N cfg D s1 =
                  (Inr \<lparr>success = True,
                        message = ''All '' @ show_nat (length D) @ '' domain(s) are already whitelisted'',
                        rules_added = [],
                        already_whitelisted = D\<rparr>, s2) \<and>
               world s2 = world s1 \<and>
               trace s2 = trace s1 @ [(get_url cfg, requestOptions no_options (currentAccessToken s1))] \<and>
               \<not> is_write (get_url cfg, requestOptions no_options (currentAccessToken s1))"
    by (intro exI [of _ ?s2]) simp
  with r1 e1 all show ?thesis by blast
qed

theorem unblock_idempotent_witness:
  "p_next (world (demo_state ''old'' [])) \<noteq> [] \<and>
   fst (unblockDomainTool (provider_net demo_cfg) demo_cfg [''a.com'', ''*.b.com''] (demo_state ''old'' [])) =
     Inr first_result \<and>
   rules (p_rules (world (snd (unblockDomainTool (provider_net demo_cfg) demo_cfg [''a.com'', ''*.b.com'']
                                 (demo_state ''old'' []))))) = [''@@||a.com^'', ''@@||*.b.com^''] \<and>
   fst (unblockDomainTool (provider_net demo_cfg) demo_cfg [''a.com'', ''*.b.com'']
          (snd (unblockDomainTool (provider_net demo_cfg) demo_cfg [''a.com'', ''*.b.com'']
                  (demo_state ''old'' [])))) =
     Inr \<lparr>success = True,
          message = ''All 2 domain(s) are already whitelisted'',
          rules_added = [],
          already_whitelisted = [''a.com'', ''*.b.com'']\<rparr>"
proof -
  let ?run = "unblockDomainTool (provider_net demo_cfg) demo_cfg [''a.com'', ''*.b.com''] (demo_state ''old'' [])"
  have first: "?run = (Inr first_result, snd ?run)"
    using demo_first_stale by (metis prod.collapse)
  have issued: "p_next (world (demo_state ''old'' [])) \<noteq> []"
    by (simp add: demo_state_def demo_provider_def)
  have sn: "show_nat (length [''a.com'', ''*.b.com'']) = ''2''" by (simp add: show_nat.simps digit_def)
  have old: "rules (p_rules (world (demo_state ''old'' []))) @ rules_added first_result =
               [''@@||a.com^'', ''@@||*.b.com^'']"
    by (simp add: demo_state_def demo_provider_def first_result_def)
  from unblock_idempotent [OF first issued] obtain s2 where
    "rules (p_rules (world (snd ?run))) = rules (p_rules (world (demo_state ''old'' []))) @ rules_added first_result"
    "unblockDomainTool (provider_net demo_cfg) demo_cfg [''a.com'', ''*.b.com''] (snd ?run) =
       (Inr \<lparr>success = True,
             message = ''All '' @ show_nat (length [''a.com'', ''*.b.com'']) @ '' domain(s) are already whitelisted'',
             rules_added = [],
             already_whitelisted = [''a.com'', ''*.b.com'']\<rparr>, s2)"
    by blast
  with issued demo_first_stale sn old show ?thesis by simp
qed

text \<open>
  Claim C1 fails on the code. The membership test of the loop looks only at the rules
  read from the server, not at the rules already collected in the same call: with the
  input \<open>["a.com", "a.com"]\<close> and an empty rule list the call collects the rule
  \<open>@@||a.com^\<close> twice, reports both as added and writes a rule list that holds the rule
  twice.
\<close>

theorem duplicate_input_adds_rule_twice:
  "unblock_loop [] [''a.com'', ''a.com''] ([], []) = ([''@@||a.com^'', ''@@||a.com^''], []) \<and>
   fst (unblockDomainTool (provider_net demo_cfg) demo_cfg [''a.com'', ''a.com''] (demo_state ''t0'' [])) =
     Inr \<lparr>success = True,
          message = ''Successfully added 2 whitelist rule(s) for: a.com, a.com'',
          rules_added = [''@@||a.com^'', ''@@||a.com^''],
          already_whitelisted = []\<rparr> \<and>
   trace (snd (unblockDomainTool (provider_net demo_cfg) demo_cfg [''a.com'', ''a.com'']
                 (demo_state ''t0'' []))) =
     [(get_url demo_cfg, requestOptions no_options ''t0''),
      (put_url demo_cfg, requestOptions (put_options True [''@@||a.com^'', ''@@||a.com^'']) ''t0'')] \<and>
   rules (p_rules (world (snd (unblockDomainTool (provider_net demo_cfg) demo_cfg [''a.com'', ''a.com'']
                                 (demo_state ''t0'' []))))) = [''@@||a.com^'', ''@@||a.com^''] \<and>
   \<not> distinct [''@@||a.com^'', ''@@||a.com^'']"
  by (simp add: run_defs tool_defs show_nat.simps digit_def)

end
